theory Spec2Isabelle
  imports Main
begin

section \<open>The signup wizard of script.js\<close>

text \<open>
  The page keeps three module-level values that the signup code reads and writes:
  the mock user list \<open>registeredUsers\<close>, the static node list \<open>signupSteps\<close> and the
  counter \<open>currentSignupStep\<close>. Every handler runs to completion on one event, so a
  handler is a function from the values the document holds when the event fires, and
  the module-level values before it, to the module-level values after it.
\<close>

subsection \<open>Strings\<close>

text \<open>
  A JavaScript string is a sequence of UTF-16 code units. A \<^typ>\<open>char\<close> stands for a
  code unit below 256. On those units \<^verbatim>\<open>String.prototype.toLowerCase\<close> moves the
  letters A to Z (65 to 90) and the Latin-1 capitals (192 to 222, without the
  multiplication sign 215) up by 32 and leaves every other unit where it is.
\<close>

definition toLowerCase_unit :: "char \<Rightarrow> char" where
  "toLowerCase_unit c =
     (let n = (of_char c :: nat) in
      if (65 \<le> n \<and> n \<le> 90) \<or> (192 \<le> n \<and> n \<le> 222 \<and> n \<noteq> 215)
      then char_of (n + 32) else c)"

definition toLowerCase :: "string \<Rightarrow> string" where
  "toLowerCase s = map toLowerCase_unit s"

subsection \<open>Module-level values\<close>

record user =
  email :: string
  username :: string
  password :: string

text \<open>
  \<open>signupSteps\<close> is the result of one \<^verbatim>\<open>querySelectorAll\<close> at load time; the
  handlers use its length and whether an index names an element of it, so the record
  keeps the length.
\<close>

record globals =
  registeredUsers :: "user list"
  signupSteps_length :: nat
  currentSignupStep :: int

text \<open>Lines 5 to 8 and 108: the values at load time, on a page with \<open>n\<close> step elements.\<close>

definition initial :: "nat \<Rightarrow> globals" where
  "initial n =
     \<lparr>registeredUsers =
        [\<lparr>email = ''user@example.com'', username = ''demo'', password = ''password123''\<rparr>,
         \<lparr>email = ''test@mail.com'', username = ''tester'', password = ''securepass''\<rparr>],
      signupSteps_length = n,
      currentSignupStep = 0\<rparr>"

text \<open>
  \<^verbatim>\<open>signupSteps[i]\<close> is an element exactly when \<open>i\<close> is an index of the list;
  otherwise it is \<^verbatim>\<open>undefined\<close>, and reading a property of it throws a TypeError.
\<close>

datatype error = TypeError

definition has_step :: "globals \<Rightarrow> int \<Rightarrow> bool" where
  "has_step g i = (0 \<le> i \<and> i < int (signupSteps_length g))"

subsection \<open>The duplicate check (lines 15 to 18)\<close>

text \<open>\<^verbatim>\<open>Array.prototype.some\<close>: left to right, stopping at the first hit.\<close>

primrec some :: "('a \<Rightarrow> bool) \<Rightarrow> 'a list \<Rightarrow> bool" where
  "some p [] = False"
| "some p (x # xs) = (if p x then True else some p xs)"

definition isEmailAlreadyRegistered :: "globals \<Rightarrow> string \<Rightarrow> bool" where
  "isEmailAlreadyRegistered g addr =
     some (\<lambda>u. toLowerCase (email u) = toLowerCase addr) (registeredUsers g)"

subsection \<open>What the document holds when an event fires\<close>

text \<open>
  \<open>required_values\<close> are the values of the \<^verbatim>\<open>input[required]\<close> elements inside the
  active step, in document order; the other four fields are the values of the inputs
  with the ids \<^verbatim>\<open>reg-email\<close>, \<^verbatim>\<open>reg-username\<close>, \<^verbatim>\<open>reg-password\<close> and
  \<^verbatim>\<open>reg-confirm-password\<close>. The markup is not part of the script: the four
  inputs are taken to exist (the handlers read their \<^verbatim>\<open>value\<close> without a test),
  and no relation between the two groups is assumed.
\<close>

record form =
  required_values :: "string list"
  reg_email :: string
  reg_username :: string
  reg_password :: string
  reg_confirm_password :: string

subsection \<open>Step navigation (lines 110 to 117)\<close>

text \<open>
  Line 113 reads \<^verbatim>\<open>signupSteps[currentSignupStep].classList\<close> before line 114
  assigns, so a counter that names no element throws with the counter unchanged.
\<close>

definition navigateSignupStep :: "int \<Rightarrow> globals \<Rightarrow> error + globals" where
  "navigateSignupStep direction g =
     (let nextStep = currentSignupStep g + direction in
      if nextStep \<ge> 0 \<and> nextStep < int (signupSteps_length g)
      then (if has_step g (currentSignupStep g)
            then Inr (g\<lparr>currentSignupStep := nextStep\<rparr>)
            else Inl TypeError)
      else Inr g)"

subsection \<open>Handlers\<close>

text \<open>
  The handlers return nothing; what they did shows in the call they end with. The
  outcome names that call, \<open>queried\<close> lists the arguments of the calls of
  \<open>isEmailAlreadyRegistered\<close> the handler made, and \<open>after\<close> holds the module-level
  values it leaves.
\<close>

record 'o result =
  outcome :: 'o
  queried :: "string list"
  after :: globals

text \<open>
  Lines 119 to 148. \<open>Blocked_missing_fields\<close> is the \<^verbatim>\<open>alert\<close> of line 145,
  \<open>Blocked_duplicate_email\<close> the error message of line 139, \<open>Advanced\<close> the call of
  \<open>navigateSignupStep(1)\<close> of line 143, and \<open>Advance_threw\<close> a TypeError
  (line 122, when the counter names no step).
\<close>

datatype advance_outcome =
  Blocked_missing_fields | Blocked_duplicate_email | Advanced | Advance_threw

text \<open>The loop of lines 123 to 132; \<^verbatim>\<open>!input.value\<close> holds for the empty string only.\<close>

primrec allValid_loop :: "bool \<Rightarrow> string list \<Rightarrow> bool" where
  "allValid_loop allValid [] = allValid"
| "allValid_loop allValid (v # vs) = allValid_loop (if v = [] then False else allValid) vs"

definition nextStepClick :: "form \<Rightarrow> globals \<Rightarrow> advance_outcome result" where
  "nextStepClick f g =
     (if \<not> has_step g (currentSignupStep g)
      then \<lparr>outcome = Advance_threw, queried = [], after = g\<rparr>
      else if allValid_loop True (required_values f)
      then (if currentSignupStep g = 0
            then (if isEmailAlreadyRegistered g (reg_email f)
                  then \<lparr>outcome = Blocked_duplicate_email, queried = [reg_email f], after = g\<rparr>
                  else (case navigateSignupStep 1 g of
                          Inl e \<Rightarrow> \<lparr>outcome = Advance_threw, queried = [reg_email f], after = g\<rparr>
                        | Inr g' \<Rightarrow> \<lparr>outcome = Advanced, queried = [reg_email f], after = g'\<rparr>))
            else (case navigateSignupStep 1 g of
                    Inl e \<Rightarrow> \<lparr>outcome = Advance_threw, queried = [], after = g\<rparr>
                  | Inr g' \<Rightarrow> \<lparr>outcome = Advanced, queried = [], after = g'\<rparr>))
      else \<lparr>outcome = Blocked_missing_fields, queried = [], after = g\<rparr>)"

text \<open>Line 150.\<close>

definition prevStepClick :: "globals \<Rightarrow> error + globals" where
  "prevStepClick g = navigateSignupStep (- 1) g"

text \<open>
  What the calls evaluate to. \<open>navigateSignupStep\<close> has no \<^verbatim>\<open>return\<close> statement,
  so a call that completes evaluates to \<^verbatim>\<open>undefined\<close> on either branch of line
  112; the arrow function of line 150 has that call as its body and hands the same
  value on.
\<close>

datatype js_value = Undefined | Boolean bool

definition navigateSignupStep_value :: "int \<Rightarrow> globals \<Rightarrow> error + js_value" where
  "navigateSignupStep_value direction g =
     (case navigateSignupStep direction g of Inl e \<Rightarrow> Inl e | Inr g' \<Rightarrow> Inr Undefined)"

definition prevStepClick_value :: "globals \<Rightarrow> error + js_value" where
  "prevStepClick_value g = navigateSignupStep_value (- 1) g"

text \<open>
  Lines 152 to 199. \<open>PasswordMismatch\<close> is the return of line 166, \<open>DuplicateEmail\<close>
  that of line 172, \<open>Success\<close> the end of the handler, and \<open>Submit_threw\<close> a
  TypeError at line 190, which comes after the \<^verbatim>\<open>push\<close> of line 176 and before the
  assignment of line 191.
\<close>

datatype submit_outcome =
  PasswordMismatch | DuplicateEmail | Success user | Submit_threw

definition submit :: "form \<Rightarrow> globals \<Rightarrow> submit_outcome result" where
  "submit f g =
     (let pw = reg_password f; confirmPassword = reg_confirm_password f in
      if pw \<noteq> confirmPassword
      then \<lparr>outcome = PasswordMismatch, queried = [], after = g\<rparr>
      else if isEmailAlreadyRegistered g (reg_email f)
      then \<lparr>outcome = DuplicateEmail, queried = [reg_email f], after = g\<rparr>
      else
        (let u = \<lparr>email = reg_email f, username = reg_username f, password = pw\<rparr>;
             g1 = g\<lparr>registeredUsers := registeredUsers g @ [u]\<rparr>
         in if has_step g1 (currentSignupStep g1)
            then \<lparr>outcome = Success u, queried = [reg_email f],
                  after = g1\<lparr>currentSignupStep := 0\<rparr>\<rparr>
            else \<lparr>outcome = Submit_threw, queried = [reg_email f], after = g1\<rparr>))"

subsection \<open>Sequences of events\<close>

text \<open>
  An exception a handler does not catch ends that handler; the page goes on with the
  values as they stand.
\<close>

datatype event = NextStepClick | PrevStepClick | Submit

definition handle :: "event \<Rightarrow> form \<Rightarrow> globals \<Rightarrow> globals" where
  "handle ev f g =
     (case ev of
        NextStepClick \<Rightarrow> after (nextStepClick f g)
      | PrevStepClick \<Rightarrow> (case prevStepClick g of Inl e \<Rightarrow> g | Inr g' \<Rightarrow> g')
      | Submit \<Rightarrow> after (submit f g))"

primrec run :: "(event \<times> form) list \<Rightarrow> globals \<Rightarrow> globals" where
  "run [] g = g"
| "run (e # es) g = run es (handle (fst e) (snd e) g)"

subsection \<open>Invariants of the data model\<close>

definition unique_emails :: "globals \<Rightarrow> bool" where
  "unique_emails g = distinct (map (\<lambda>u. toLowerCase (email u)) (registeredUsers g))"

definition wizard_inv :: "globals \<Rightarrow> bool" where
  "wizard_inv g = (0 \<le> currentSignupStep g \<and> currentSignupStep g < int (signupSteps_length g))"

section \<open>Properties\<close>

lemma some_iff: "some p xs \<longleftrightarrow> (\<exists>x \<in> set xs. p x)"
  by (induction xs) auto

lemma allValid_loop_False: "allValid_loop False vs = False"
  by (induction vs) auto

lemma allValid_loop_iff: "allValid_loop True vs \<longleftrightarrow> [] \<notin> set vs"
  by (induction vs) (auto simp: allValid_loop_False)


subsection \<open>The duplicate check\<close>

lemma registered_cong:
  "toLowerCase a = toLowerCase b \<Longrightarrow>
   isEmailAlreadyRegistered g a = isEmailAlreadyRegistered g b"
  by (simp add: isEmailAlreadyRegistered_def)

lemma registered_after_push:
  "isEmailAlreadyRegistered
     (g\<lparr>registeredUsers := registeredUsers g @ [\<lparr>email = a, username = n, password = p\<rparr>]\<rparr>) a"
  by (simp add: isEmailAlreadyRegistered_def some_iff)

lemma registered_currentSignupStep_update:
  "isEmailAlreadyRegistered (g\<lparr>currentSignupStep := i\<rparr>) a = isEmailAlreadyRegistered g a"
  by (simp add: isEmailAlreadyRegistered_def)

lemma lower_demo_email: "toLowerCase ''USER@EXAMPLE.COM'' = toLowerCase ''user@example.com''"
  by code_simp

lemma initial_has_demo_email: "isEmailAlreadyRegistered (initial n) ''USER@EXAMPLE.COM''"
  by (simp add: isEmailAlreadyRegistered_def initial_def lower_demo_email)

text \<open>
  C3. For every address and every user list, \<open>isEmailAlreadyRegistered\<close> answers true
  exactly when some stored user's email, lowercased, equals the address lowercased.
  The function reads the list and returns a boolean only: its body assigns nothing
  and calls nothing that mutates, so it has no state to hand back.
\<close>

theorem isEmailAlreadyRegistered_iff_stored_lowercase_match:
  "isEmailAlreadyRegistered g addr \<longleftrightarrow>
     (\<exists>u \<in> set (registeredUsers g). toLowerCase (email u) = toLowerCase addr)"
  unfolding isEmailAlreadyRegistered_def by (rule some_iff)

theorem isEmailAlreadyRegistered_iff_stored_lowercase_match_witness:
  "isEmailAlreadyRegistered (initial 2) ''USER@EXAMPLE.COM'' \<and>
   (\<exists>u \<in> set (registeredUsers (initial 2)).
      toLowerCase (email u) = toLowerCase ''USER@EXAMPLE.COM'')"
proof -
  have "isEmailAlreadyRegistered (initial 2) ''USER@EXAMPLE.COM''"
    by (rule initial_has_demo_email)
  with isEmailAlreadyRegistered_iff_stored_lowercase_match
         [of "initial 2" "''USER@EXAMPLE.COM''"]
  show ?thesis by blast
qed

subsection \<open>Registration\<close>

lemma submit_mismatch:
  "reg_password f \<noteq> reg_confirm_password f \<Longrightarrow>
   submit f g = \<lparr>outcome = PasswordMismatch, queried = [], after = g\<rparr>"
  by (simp add: submit_def)

lemma submit_duplicate:
  "reg_password f = reg_confirm_password f \<Longrightarrow> isEmailAlreadyRegistered g (reg_email f) \<Longrightarrow>
   submit f g = \<lparr>outcome = DuplicateEmail, queried = [reg_email f], after = g\<rparr>"
  by (simp add: submit_def)

lemma submit_registeredUsers_fresh:
  "reg_password f = reg_confirm_password f \<Longrightarrow> \<not> isEmailAlreadyRegistered g (reg_email f) \<Longrightarrow>
   registeredUsers (after (submit f g)) =
     registeredUsers g @
       [\<lparr>email = reg_email f, username = reg_username f, password = reg_password f\<rparr>]"
  by (simp add: submit_def Let_def)

lemma submit_success:
  "reg_password f = reg_confirm_password f \<Longrightarrow> \<not> isEmailAlreadyRegistered g (reg_email f) \<Longrightarrow>
   wizard_inv g \<Longrightarrow>
   submit f g =
     \<lparr>outcome = Success \<lparr>email = reg_email f, username = reg_username f,
                          password = reg_password f\<rparr>,
      queried = [reg_email f],
      after = g\<lparr>registeredUsers := registeredUsers g @
                   [\<lparr>email = reg_email f, username = reg_username f,
                     password = reg_password f\<rparr>],
                currentSignupStep := 0\<rparr>\<rparr>"
  by (simp add: submit_def Let_def has_step_def wizard_inv_def)

lemma registered_after_submit:
  assumes "reg_password f = reg_confirm_password f"
  shows "isEmailAlreadyRegistered (after (submit f g)) (reg_email f)"
proof (cases "isEmailAlreadyRegistered g (reg_email f)")
  case True
  with assms show ?thesis by (simp add: submit_duplicate)
next
  case False
  with assms have "registeredUsers (after (submit f g)) =
      registeredUsers g @
        [\<lparr>email = reg_email f, username = reg_username f, password = reg_password f\<rparr>]"
    by (rule submit_registeredUsers_fresh)
  then show ?thesis
    by (simp add: isEmailAlreadyRegistered_def some_iff)
qed

text \<open>
  C1. Two submissions in a row, each with its password confirmed, whose emails are
  equal once lowercased: whatever the first one did, the second ends at the
  duplicate-email return of line 172 and leaves every module-level value, the user
  list and its length among them, as the first submission left it.
\<close>

theorem second_registration_is_duplicate:
  assumes "reg_password f1 = reg_confirm_password f1"
    and "reg_password f2 = reg_confirm_password f2"
    and "toLowerCase (reg_email f1) = toLowerCase (reg_email f2)"
  shows "outcome (submit f2 (after (submit f1 g))) = DuplicateEmail \<and>
         after (submit f2 (after (submit f1 g))) = after (submit f1 g) \<and>
         registeredUsers (after (submit f2 (after (submit f1 g)))) =
           registeredUsers (after (submit f1 g)) \<and>
         length (registeredUsers (after (submit f2 (after (submit f1 g))))) =
           length (registeredUsers (after (submit f1 g)))"
proof -
  let ?g1 = "after (submit f1 g)"
  have "isEmailAlreadyRegistered ?g1 (reg_email f1)"
    using assms(1) by (rule registered_after_submit)
  then have "isEmailAlreadyRegistered ?g1 (reg_email f2)"
    using registered_cong [OF assms(3), of ?g1] by simp
  with assms(2) have "submit f2 ?g1 =
      \<lparr>outcome = DuplicateEmail, queried = [reg_email f2], after = ?g1\<rparr>"
    by (rule submit_duplicate)
  then show ?thesis by simp
qed


theorem second_registration_is_duplicate_witness:
  "length (registeredUsers (initial 2)) = 2 \<and>
   outcome (submit
      \<lparr>required_values = [], reg_email = ''new@x.com'', reg_username = ''a'',
       reg_password = ''p'', reg_confirm_password = ''p''\<rparr>
      (initial 2))
     = Success \<lparr>email = ''new@x.com'', username = ''a'', password = ''p''\<rparr> \<and>
   length (registeredUsers (after (submit
      \<lparr>required_values = [], reg_email = ''new@x.com'', reg_username = ''a'',
       reg_password = ''p'', reg_confirm_password = ''p''\<rparr>
      (initial 2)))) = 3 \<and>
   outcome (submit
      \<lparr>required_values = [], reg_email = ''New@X.COM'', reg_username = ''b'',
       reg_password = ''q'', reg_confirm_password = ''q''\<rparr>
      (after (submit
         \<lparr>required_values = [], reg_email = ''new@x.com'', reg_username = ''a'',
          reg_password = ''p'', reg_confirm_password = ''p''\<rparr>
         (initial 2)))) = DuplicateEmail \<and>
   length (registeredUsers (after (submit
      \<lparr>required_values = [], reg_email = ''New@X.COM'', reg_username = ''b'',
       reg_password = ''q'', reg_confirm_password = ''q''\<rparr>
      (after (submit
         \<lparr>required_values = [], reg_email = ''new@x.com'', reg_username = ''a'',
          reg_password = ''p'', reg_confirm_password = ''p''\<rparr>
         (initial 2)))))) = 3"
proof -
  have same: "toLowerCase ''new@x.com'' = toLowerCase ''New@X.COM''"
    by code_simp
  have demo: "toLowerCase ''user@example.com'' = ''user@example.com''"
    by code_simp
  have tester: "toLowerCase ''test@mail.com'' = ''test@mail.com''"
    by code_simp
  have new: "toLowerCase ''new@x.com'' = ''new@x.com''"
    by code_simp
  have fresh: "\<not> isEmailAlreadyRegistered (initial 2) ''new@x.com''"
    by (simp add: isEmailAlreadyRegistered_def initial_def demo tester new)
  have inv: "wizard_inv (initial 2)"
    by (simp add: wizard_inv_def initial_def)
  have len: "length (registeredUsers (initial 2)) = 2"
    by (simp add: initial_def)
  have first: "submit
      \<lparr>required_values = [], reg_email = ''new@x.com'', reg_username = ''a'',
       reg_password = ''p'', reg_confirm_password = ''p''\<rparr>
      (initial 2)
     = \<lparr>outcome = Success \<lparr>email = ''new@x.com'', username = ''a'', password = ''p''\<rparr>,
        queried = [''new@x.com''],
        after = (initial 2)\<lparr>registeredUsers := registeredUsers (initial 2) @
                    [\<lparr>email = ''new@x.com'', username = ''a'', password = ''p''\<rparr>],
                  currentSignupStep := 0\<rparr>\<rparr>"
    using submit_success
            [of "\<lparr>required_values = [], reg_email = ''new@x.com'', reg_username = ''a'',
                  reg_password = ''p'', reg_confirm_password = ''p''\<rparr>"
                "initial 2"]
          fresh inv
    by simp
  have second: "outcome (submit
      \<lparr>required_values = [], reg_email = ''New@X.COM'', reg_username = ''b'',
       reg_password = ''q'', reg_confirm_password = ''q''\<rparr>
      (after (submit
         \<lparr>required_values = [], reg_email = ''new@x.com'', reg_username = ''a'',
          reg_password = ''p'', reg_confirm_password = ''p''\<rparr>
         (initial 2)))) = DuplicateEmail \<and>
     length (registeredUsers (after (submit
      \<lparr>required_values = [], reg_email = ''New@X.COM'', reg_username = ''b'',
       reg_password = ''q'', reg_confirm_password = ''q''\<rparr>
      (after (submit
         \<lparr>required_values = [], reg_email = ''new@x.com'', reg_username = ''a'',
          reg_password = ''p'', reg_confirm_password = ''p''\<rparr>
         (initial 2)))))) =
     length (registeredUsers (after (submit
         \<lparr>required_values = [], reg_email = ''new@x.com'', reg_username = ''a'',
          reg_password = ''p'', reg_confirm_password = ''p''\<rparr>
         (initial 2))))"
    using second_registration_is_duplicate
      [of "\<lparr>required_values = [], reg_email = ''new@x.com'', reg_username = ''a'',
            reg_password = ''p'', reg_confirm_password = ''p''\<rparr>"
          "\<lparr>required_values = [], reg_email = ''New@X.COM'', reg_username = ''b'',
            reg_password = ''q'', reg_confirm_password = ''q''\<rparr>"
          "initial 2"]
      same
    by simp
  have grown: "length (registeredUsers (after (submit
         \<lparr>required_values = [], reg_email = ''new@x.com'', reg_username = ''a'',
          reg_password = ''p'', reg_confirm_password = ''p''\<rparr>
         (initial 2)))) = 3"
    using first len by simp
  from len first second grown show ?thesis by simp
qed

subsection \<open>Uniqueness of stored emails\<close>

lemma unique_emails_initial: "unique_emails (initial n)"
  by (simp add: unique_emails_def initial_def toLowerCase_def)

lemma unique_emails_currentSignupStep_update:
  "unique_emails (g\<lparr>currentSignupStep := i\<rparr>) = unique_emails g"
  by (simp add: unique_emails_def)

lemma unique_emails_push:
  assumes "unique_emails g" and "\<not> isEmailAlreadyRegistered g (email u)"
  shows "unique_emails (g\<lparr>registeredUsers := registeredUsers g @ [u]\<rparr>)"
proof -
  from assms(2) have "toLowerCase (email u) \<notin>
      set (map (\<lambda>v. toLowerCase (email v)) (registeredUsers g))"
    by (auto simp: isEmailAlreadyRegistered_def some_iff)
  with assms(1) show ?thesis
    by (simp add: unique_emails_def)
qed

lemma navigateSignupStep_registeredUsers:
  "navigateSignupStep d g = Inr g' \<Longrightarrow> registeredUsers g' = registeredUsers g"
  by (auto simp: navigateSignupStep_def Let_def split: if_splits)

lemma nextStepClick_registeredUsers:
  "registeredUsers (after (nextStepClick f g)) = registeredUsers g"
  by (auto simp: nextStepClick_def split: sum.splits dest: navigateSignupStep_registeredUsers)

lemma unique_emails_submit:
  assumes "unique_emails g"
  shows "unique_emails (after (submit f g))"
proof (cases "reg_password f = reg_confirm_password f \<and>
              \<not> isEmailAlreadyRegistered g (reg_email f)")
  case True
  let ?u = "\<lparr>email = reg_email f, username = reg_username f, password = reg_password f\<rparr>"
  from True have "\<not> isEmailAlreadyRegistered g (email ?u)" by simp
  with assms have "unique_emails (g\<lparr>registeredUsers := registeredUsers g @ [?u]\<rparr>)"
    by (rule unique_emails_push)
  with True show ?thesis
    by (simp add: submit_def Let_def unique_emails_currentSignupStep_update)
next
  case False
  with assms show ?thesis
    by (auto simp: submit_def Let_def)
qed

lemma unique_emails_handle:
  assumes "unique_emails g"
  shows "unique_emails (handle ev f g)"
proof (cases ev)
  case NextStepClick
  with assms show ?thesis
    by (simp add: handle_def unique_emails_def nextStepClick_registeredUsers)
next
  case PrevStepClick
  with assms show ?thesis
    by (auto simp: handle_def prevStepClick_def unique_emails_def split: sum.splits
             dest: navigateSignupStep_registeredUsers)
next
  case Submit
  with assms show ?thesis
    by (simp add: handle_def unique_emails_submit)
qed

lemma unique_emails_run: "unique_emails g \<Longrightarrow> unique_emails (run evs g)"
  by (induction evs arbitrary: g) (simp_all add: unique_emails_handle)

text \<open>
  C2. From the two users the script starts with, on a page with any number of steps,
  after any sequence of next-clicks, previous-clicks and submissions with any field
  values, the lowercased emails of the stored users are pairwise different.
\<close>

theorem unique_emails_after_any_events:
  "distinct (map (\<lambda>u. toLowerCase (email u)) (registeredUsers (run evs (initial n))))"
proof -
  have "unique_emails (run evs (initial n))"
    using unique_emails_initial by (rule unique_emails_run)
  then show ?thesis by (simp add: unique_emails_def)
qed


theorem unique_emails_after_any_events_witness:
  "distinct (map (\<lambda>u. toLowerCase (email u))
     (registeredUsers
        (run [(NextStepClick,
                \<lparr>required_values = [''new@x.com'', ''new''], reg_email = ''new@x.com'',
                 reg_username = ''new'', reg_password = [], reg_confirm_password = []\<rparr>),
              (Submit,
                \<lparr>required_values = [''abc'', ''abc''], reg_email = ''new@x.com'',
                 reg_username = ''new'', reg_password = ''abc'',
                 reg_confirm_password = ''abc''\<rparr>)]
           (initial 2))))"
  by (rule unique_emails_after_any_events)

subsection \<open>Navigation\<close>

lemma navigateSignupStep_forward:
  "wizard_inv g \<Longrightarrow>
   navigateSignupStep 1 g =
     Inr (if currentSignupStep g + 1 < int (signupSteps_length g)
          then g\<lparr>currentSignupStep := currentSignupStep g + 1\<rparr> else g)"
  by (simp add: navigateSignupStep_def Let_def has_step_def wizard_inv_def)

lemma navigateSignupStep_backward:
  "wizard_inv g \<Longrightarrow>
   navigateSignupStep (- 1) g =
     Inr (if currentSignupStep g - 1 \<ge> 0
          then g\<lparr>currentSignupStep := currentSignupStep g - 1\<rparr> else g)"
  by (simp add: navigateSignupStep_def Let_def has_step_def wizard_inv_def)

lemma navigateSignupStep_inv:
  "wizard_inv g \<Longrightarrow> navigateSignupStep d g = Inr g' \<Longrightarrow>
   wizard_inv g' \<and> signupSteps_length g' = signupSteps_length g"
  by (auto simp: navigateSignupStep_def Let_def wizard_inv_def split: if_splits)

lemma navigateSignupStep_has_step:
  "has_step g (currentSignupStep g) \<Longrightarrow> \<exists>g'. navigateSignupStep d g = Inr g'"
  by (simp add: navigateSignupStep_def Let_def)

lemma nextStepClick_missing:
  "wizard_inv g \<Longrightarrow> [] \<in> set (required_values f) \<Longrightarrow>
   nextStepClick f g = \<lparr>outcome = Blocked_missing_fields, queried = [], after = g\<rparr>"
  by (simp add: nextStepClick_def has_step_def wizard_inv_def allValid_loop_iff)

lemma nextStepClick_duplicate:
  "wizard_inv g \<Longrightarrow> [] \<notin> set (required_values f) \<Longrightarrow> currentSignupStep g = 0 \<Longrightarrow>
   isEmailAlreadyRegistered g (reg_email f) \<Longrightarrow>
   nextStepClick f g =
     \<lparr>outcome = Blocked_duplicate_email, queried = [reg_email f], after = g\<rparr>"
  by (simp add: nextStepClick_def has_step_def wizard_inv_def allValid_loop_iff)

lemma nextStepClick_navigates:
  assumes "wizard_inv g" and "[] \<notin> set (required_values f)"
    and "\<not> (currentSignupStep g = 0 \<and> isEmailAlreadyRegistered g (reg_email f))"
  shows "nextStepClick f g =
     \<lparr>outcome = Advanced,
      queried = (if currentSignupStep g = 0 then [reg_email f] else []),
      after = (if currentSignupStep g + 1 < int (signupSteps_length g)
               then g\<lparr>currentSignupStep := currentSignupStep g + 1\<rparr> else g)\<rparr>"
proof -
  from assms(1) have h: "has_step g (currentSignupStep g)"
    by (simp add: has_step_def wizard_inv_def)
  from assms(2) have v: "allValid_loop True (required_values f)"
    by (simp add: allValid_loop_iff)
  show ?thesis
  proof (cases "currentSignupStep g = 0")
    case True
    with assms(3) have "\<not> isEmailAlreadyRegistered g (reg_email f)" by simp
    with True h v show ?thesis
      by (simp add: nextStepClick_def navigateSignupStep_forward [OF assms(1)])
  next
    case False
    with h v show ?thesis
      by (simp add: nextStepClick_def navigateSignupStep_forward [OF assms(1)])
  qed
qed

lemma nextStepClick_blocked_unchanged:
  assumes "[] \<in> set (required_values f) \<or>
           (currentSignupStep g = 0 \<and> isEmailAlreadyRegistered g (reg_email f))"
  shows "after (nextStepClick f g) = g \<and> outcome (nextStepClick f g) \<noteq> Advanced"
proof (cases "has_step g (currentSignupStep g)")
  case False
  then show ?thesis by (simp add: nextStepClick_def)
next
  case True
  show ?thesis
  proof (cases "[] \<in> set (required_values f)")
    case missing: True
    with True show ?thesis
      by (simp add: nextStepClick_def allValid_loop_iff)
  next
    case False
    with assms have "currentSignupStep g = 0" "isEmailAlreadyRegistered g (reg_email f)"
      by simp_all
    with True False show ?thesis
      by (simp add: nextStepClick_def allValid_loop_iff)
  qed
qed

lemma nextStepClick_inv:
  assumes "wizard_inv g"
  shows "wizard_inv (after (nextStepClick f g)) \<and>
         signupSteps_length (after (nextStepClick f g)) = signupSteps_length g"
proof (cases "[] \<in> set (required_values f) \<or>
              (currentSignupStep g = 0 \<and> isEmailAlreadyRegistered g (reg_email f))")
  case True
  then have "after (nextStepClick f g) = g"
    using nextStepClick_blocked_unchanged by blast
  with assms show ?thesis by simp
next
  case False
  then have "[] \<notin> set (required_values f)"
    and "\<not> (currentSignupStep g = 0 \<and> isEmailAlreadyRegistered g (reg_email f))"
    by simp_all
  with assms have "after (nextStepClick f g) =
      (if currentSignupStep g + 1 < int (signupSteps_length g)
       then g\<lparr>currentSignupStep := currentSignupStep g + 1\<rparr> else g)"
    by (simp add: nextStepClick_navigates)
  with assms show ?thesis
    by (simp add: wizard_inv_def)
qed

lemma submit_inv:
  assumes "wizard_inv g"
  shows "wizard_inv (after (submit f g)) \<and>
         signupSteps_length (after (submit f g)) = signupSteps_length g"
  using assms by (simp add: submit_def Let_def wizard_inv_def has_step_def)

lemma handle_inv:
  assumes "wizard_inv g"
  shows "wizard_inv (handle ev f g) \<and> signupSteps_length (handle ev f g) = signupSteps_length g"
proof (cases ev)
  case NextStepClick
  with assms show ?thesis
    by (simp add: handle_def nextStepClick_inv)
next
  case PrevStepClick
  with assms show ?thesis
    by (simp add: handle_def prevStepClick_def navigateSignupStep_backward wizard_inv_def)
next
  case Submit
  with assms show ?thesis
    by (simp add: handle_def submit_inv)
qed

lemma run_inv:
  "wizard_inv g \<Longrightarrow>
   wizard_inv (run evs g) \<and> signupSteps_length (run evs g) = signupSteps_length g"
  by (induction evs arbitrary: g) (simp_all add: handle_inv)

lemma wizard_inv_initial: "0 < n \<Longrightarrow> wizard_inv (initial n)"
  by (simp add: wizard_inv_def initial_def)


subsection \<open>Concrete addresses\<close>

lemma lower_seed_demo: "toLowerCase ''user@example.com'' = ''user@example.com''"
  by code_simp

lemma lower_seed_tester: "toLowerCase ''test@mail.com'' = ''test@mail.com''"
  by code_simp

lemma lower_new: "toLowerCase ''new@x.com'' = ''new@x.com''"
  by code_simp

lemma lower_New: "toLowerCase ''New@X.com'' = ''new@x.com''"
  by code_simp

lemma initial_lacks_new: "\<not> isEmailAlreadyRegistered (initial n) ''new@x.com''"
  by (simp add: isEmailAlreadyRegistered_def initial_def lower_seed_demo lower_seed_tester
        lower_new)

lemma initial_lacks_New: "\<not> isEmailAlreadyRegistered (initial n) ''New@X.com''"
  by (simp add: isEmailAlreadyRegistered_def initial_def lower_seed_demo lower_seed_tester
        lower_New)

lemma initial_lacks_empty: "\<not> isEmailAlreadyRegistered (initial n) []"
  by (simp add: isEmailAlreadyRegistered_def initial_def lower_seed_demo lower_seed_tester
        toLowerCase_def)

lemma wizard_inv_second_step: "wizard_inv ((initial 2)\<lparr>currentSignupStep := 1\<rparr>)"
  by (simp add: wizard_inv_def initial_def)

subsection \<open>The next-step handler\<close>

text \<open>
  C4, as the code has it. With the counter inside the step list: a required input of
  the active step that is empty ends the handler at the alert, with nothing changed
  and no call of \<open>isEmailAlreadyRegistered\<close>; otherwise, on step 0 with a registered
  email, it ends at the duplicate message with nothing changed; otherwise it calls
  \<open>navigateSignupStep(1)\<close>, which moves the counter one step up when a next step
  exists and leaves it on the last step.
\<close>

theorem nextStepClick_three_cases:
  assumes "wizard_inv g"
  shows "([] \<in> set (required_values f) \<longrightarrow>
            outcome (nextStepClick f g) = Blocked_missing_fields \<and>
            queried (nextStepClick f g) = [] \<and>
            after (nextStepClick f g) = g) \<and>
         ([] \<notin> set (required_values f) \<and> currentSignupStep g = 0 \<and>
          isEmailAlreadyRegistered g (reg_email f) \<longrightarrow>
            outcome (nextStepClick f g) = Blocked_duplicate_email \<and>
            after (nextStepClick f g) = g) \<and>
         ([] \<notin> set (required_values f) \<and>
          \<not> (currentSignupStep g = 0 \<and> isEmailAlreadyRegistered g (reg_email f)) \<longrightarrow>
            outcome (nextStepClick f g) = Advanced \<and>
            after (nextStepClick f g) =
              (if currentSignupStep g + 1 < int (signupSteps_length g)
               then g\<lparr>currentSignupStep := currentSignupStep g + 1\<rparr> else g))"
proof (intro conjI impI)
  assume "[] \<in> set (required_values f)"
  with assms have "nextStepClick f g =
      \<lparr>outcome = Blocked_missing_fields, queried = [], after = g\<rparr>"
    by (rule nextStepClick_missing)
  then show "outcome (nextStepClick f g) = Blocked_missing_fields"
    and "queried (nextStepClick f g) = []" and "after (nextStepClick f g) = g"
    by simp_all
next
  assume "[] \<notin> set (required_values f) \<and> currentSignupStep g = 0 \<and>
          isEmailAlreadyRegistered g (reg_email f)"
  with assms have "nextStepClick f g =
      \<lparr>outcome = Blocked_duplicate_email, queried = [reg_email f], after = g\<rparr>"
    by (simp add: nextStepClick_duplicate)
  then show "outcome (nextStepClick f g) = Blocked_duplicate_email"
    and "after (nextStepClick f g) = g"
    by simp_all
next
  assume a: "[] \<notin> set (required_values f) \<and>
          \<not> (currentSignupStep g = 0 \<and> isEmailAlreadyRegistered g (reg_email f))"
  then have "[] \<notin> set (required_values f)"
    and "\<not> (currentSignupStep g = 0 \<and> isEmailAlreadyRegistered g (reg_email f))"
    by simp_all
  with assms have n: "nextStepClick f g =
     \<lparr>outcome = Advanced,
      queried = (if currentSignupStep g = 0 then [reg_email f] else []),
      after = (if currentSignupStep g + 1 < int (signupSteps_length g)
               then g\<lparr>currentSignupStep := currentSignupStep g + 1\<rparr> else g)\<rparr>"
    by (rule nextStepClick_navigates)
  from n show "outcome (nextStepClick f g) = Advanced" by simp
  from n show "after (nextStepClick f g) =
      (if currentSignupStep g + 1 < int (signupSteps_length g)
       then g\<lparr>currentSignupStep := currentSignupStep g + 1\<rparr> else g)"
    by simp
qed

theorem nextStepClick_three_cases_witness:
  "outcome (nextStepClick
      \<lparr>required_values = [[], ''x''], reg_email = [], reg_username = ''x'',
       reg_password = [], reg_confirm_password = []\<rparr> (initial 2)) = Blocked_missing_fields \<and>
   queried (nextStepClick
      \<lparr>required_values = [[], ''x''], reg_email = [], reg_username = ''x'',
       reg_password = [], reg_confirm_password = []\<rparr> (initial 2)) = [] \<and>
   outcome (nextStepClick
      \<lparr>required_values = [''USER@EXAMPLE.COM'', ''x''], reg_email = ''USER@EXAMPLE.COM'',
       reg_username = ''x'', reg_password = [], reg_confirm_password = []\<rparr> (initial 2))
     = Blocked_duplicate_email \<and>
   outcome (nextStepClick
      \<lparr>required_values = [''new@x.com'', ''new''], reg_email = ''new@x.com'',
       reg_username = ''new'', reg_password = [], reg_confirm_password = []\<rparr> (initial 2))
     = Advanced \<and>
   currentSignupStep (after (nextStepClick
      \<lparr>required_values = [''new@x.com'', ''new''], reg_email = ''new@x.com'',
       reg_username = ''new'', reg_password = [], reg_confirm_password = []\<rparr> (initial 2)))
     = 1"
proof -
  have inv: "wizard_inv (initial 2)" by (simp add: wizard_inv_initial)
  have zero: "currentSignupStep (initial 2) = 0" "signupSteps_length (initial 2) = 2"
    by (simp_all add: initial_def)
  note dup = initial_has_demo_email [of 2]
  note fresh = initial_lacks_new [of 2]
  show ?thesis
    using nextStepClick_three_cases [OF inv,
            of "\<lparr>required_values = [[], ''x''], reg_email = [], reg_username = ''x'',
                 reg_password = [], reg_confirm_password = []\<rparr>"]
          nextStepClick_three_cases [OF inv,
            of "\<lparr>required_values = [''USER@EXAMPLE.COM'', ''x''],
                 reg_email = ''USER@EXAMPLE.COM'', reg_username = ''x'',
                 reg_password = [], reg_confirm_password = []\<rparr>"]
          nextStepClick_three_cases [OF inv,
            of "\<lparr>required_values = [''new@x.com'', ''new''], reg_email = ''new@x.com'',
                 reg_username = ''new'', reg_password = [], reg_confirm_password = []\<rparr>"]
          zero dup fresh
    by simp
qed

text \<open>
  C4 as the claim words it fails on the last step. On a page with two steps, with the
  counter at 1 (where a valid next-click from the start leaves it) and every required
  input filled, the handler reaches \<open>navigateSignupStep(1)\<close> and the counter stays
  at 1: the wizard does not advance.
\<close>

theorem nextStepClick_last_step_counterexample:
  "after (nextStepClick
      \<lparr>required_values = [''new@x.com'', ''new''], reg_email = ''new@x.com'',
       reg_username = ''new'', reg_password = [], reg_confirm_password = []\<rparr> (initial 2))
     = (initial 2)\<lparr>currentSignupStep := 1\<rparr> \<and>
   [] \<notin> set (required_values
      \<lparr>required_values = [''abc'', ''abc''], reg_email = ''new@x.com'',
       reg_username = ''new'', reg_password = ''abc'', reg_confirm_password = ''abc''\<rparr>) \<and>
   currentSignupStep ((initial 2)\<lparr>currentSignupStep := 1\<rparr>) \<noteq> 0 \<and>
   outcome (nextStepClick
      \<lparr>required_values = [''abc'', ''abc''], reg_email = ''new@x.com'',
       reg_username = ''new'', reg_password = ''abc'', reg_confirm_password = ''abc''\<rparr>
      ((initial 2)\<lparr>currentSignupStep := 1\<rparr>)) = Advanced \<and>
   currentSignupStep (after (nextStepClick
      \<lparr>required_values = [''abc'', ''abc''], reg_email = ''new@x.com'',
       reg_username = ''new'', reg_password = ''abc'', reg_confirm_password = ''abc''\<rparr>
      ((initial 2)\<lparr>currentSignupStep := 1\<rparr>))) = 1 \<and>
   currentSignupStep (after (nextStepClick
      \<lparr>required_values = [''abc'', ''abc''], reg_email = ''new@x.com'',
       reg_username = ''new'', reg_password = ''abc'', reg_confirm_password = ''abc''\<rparr>
      ((initial 2)\<lparr>currentSignupStep := 1\<rparr>)))
     \<noteq> currentSignupStep ((initial 2)\<lparr>currentSignupStep := 1\<rparr>) + 1"
proof -
  have zero: "currentSignupStep (initial 2) = 0" "signupSteps_length (initial 2) = 2"
    by (simp_all add: initial_def)
  have first: "nextStepClick
      \<lparr>required_values = [''new@x.com'', ''new''], reg_email = ''new@x.com'',
       reg_username = ''new'', reg_password = [], reg_confirm_password = []\<rparr> (initial 2)
     = \<lparr>outcome = Advanced, queried = [''new@x.com''],
        after = (initial 2)\<lparr>currentSignupStep := 1\<rparr>\<rparr>"
    using initial_lacks_new [of 2] zero
    by (simp add: nextStepClick_def navigateSignupStep_def has_step_def)
  have second: "nextStepClick
      \<lparr>required_values = [''abc'', ''abc''], reg_email = ''new@x.com'',
       reg_username = ''new'', reg_password = ''abc'', reg_confirm_password = ''abc''\<rparr>
      ((initial 2)\<lparr>currentSignupStep := 1\<rparr>)
     = \<lparr>outcome = Advanced, queried = [],
        after = (initial 2)\<lparr>currentSignupStep := 1\<rparr>\<rparr>"
    using zero
    by (simp add: nextStepClick_def navigateSignupStep_def has_step_def)
  from first second show ?thesis by simp
qed

text \<open>
  C5. Whatever the counter is (inside the step list or not): when the guard of the
  next-step handler fails, that is, when the validation loop ends with \<open>allValid\<close>
  false, or step 0 is active and the email is registered, the handler leaves the
  counter and every other module-level value as they were, and does not reach the
  call of \<open>navigateSignupStep\<close>. The guard is computed from the values before the
  handler; no assignment precedes it.
\<close>

theorem failed_guard_leaves_wizard_unchanged:
  assumes "\<not> allValid_loop True (required_values f) \<or>
           (currentSignupStep g = 0 \<and> isEmailAlreadyRegistered g (reg_email f))"
  shows "currentSignupStep (after (nextStepClick f g)) = currentSignupStep g \<and>
         after (nextStepClick f g) = g \<and>
         outcome (nextStepClick f g) \<noteq> Advanced"
proof -
  from assms have "[] \<in> set (required_values f) \<or>
      (currentSignupStep g = 0 \<and> isEmailAlreadyRegistered g (reg_email f))"
    by (simp add: allValid_loop_iff)
  then have "after (nextStepClick f g) = g \<and> outcome (nextStepClick f g) \<noteq> Advanced"
    by (rule nextStepClick_blocked_unchanged)
  then show ?thesis by simp
qed

theorem failed_guard_leaves_wizard_unchanged_witness:
  "currentSignupStep (after (nextStepClick
      \<lparr>required_values = [''abc'', []], reg_email = ''new@x.com'', reg_username = ''new'',
       reg_password = ''abc'', reg_confirm_password = []\<rparr>
      ((initial 3)\<lparr>currentSignupStep := 1\<rparr>))) = 1 \<and>
   after (nextStepClick
      \<lparr>required_values = [''USER@EXAMPLE.COM'', ''x''], reg_email = ''USER@EXAMPLE.COM'',
       reg_username = ''x'', reg_password = [], reg_confirm_password = []\<rparr>
      (initial 3)) = initial 3"
  using failed_guard_leaves_wizard_unchanged
          [of "\<lparr>required_values = [''abc'', []], reg_email = ''new@x.com'',
                reg_username = ''new'', reg_password = ''abc'',
                reg_confirm_password = []\<rparr>"
              "(initial 3)\<lparr>currentSignupStep := 1\<rparr>"]
        failed_guard_leaves_wizard_unchanged
          [of "\<lparr>required_values = [''USER@EXAMPLE.COM'', ''x''],
                reg_email = ''USER@EXAMPLE.COM'', reg_username = ''x'',
                reg_password = [], reg_confirm_password = []\<rparr>"
              "initial 3"]
        initial_has_demo_email [of 3]
  by (simp add: initial_def)

subsection \<open>The previous-step handler\<close>

text \<open>
  C6, as the code has it. With the counter inside the step list, the previous-step
  handler lowers the counter by one when \<open>currentSignupStep - 1 \<ge> 0\<close> and changes
  nothing on step 0. It reads no input: for every content of the fields the result
  is the same, so on every step after the first the counter moves back. On both
  paths the call evaluates to \<^verbatim>\<open>undefined\<close>: no boolean tells whether it moved.
\<close>

theorem prevStepClick_decrements_unless_first:
  assumes "wizard_inv g"
  shows "prevStepClick g =
           Inr (if currentSignupStep g - 1 \<ge> 0
                then g\<lparr>currentSignupStep := currentSignupStep g - 1\<rparr> else g) \<and>
         handle PrevStepClick f g =
           (if currentSignupStep g - 1 \<ge> 0
            then g\<lparr>currentSignupStep := currentSignupStep g - 1\<rparr> else g) \<and>
         (0 < currentSignupStep g \<longrightarrow>
            currentSignupStep (handle PrevStepClick f g) = currentSignupStep g - 1 \<and>
            handle PrevStepClick f g \<noteq> g) \<and>
         (currentSignupStep g = 0 \<longrightarrow> handle PrevStepClick f g = g) \<and>
         prevStepClick_value g = Inr Undefined"
proof -
  let ?g' = "if currentSignupStep g - 1 \<ge> 0
             then g\<lparr>currentSignupStep := currentSignupStep g - 1\<rparr> else g"
  from assms have p: "prevStepClick g = Inr ?g'"
    unfolding prevStepClick_def by (rule navigateSignupStep_backward)
  from assms have v: "prevStepClick_value g = Inr Undefined"
    by (simp add: prevStepClick_value_def navigateSignupStep_value_def
          navigateSignupStep_backward)
  from p have h: "handle PrevStepClick f g = ?g'"
    by (simp add: handle_def)
  have moved: "handle PrevStepClick f g \<noteq> g" if "0 < currentSignupStep g"
  proof
    assume "handle PrevStepClick f g = g"
    then have "currentSignupStep (handle PrevStepClick f g) = currentSignupStep g"
      by simp
    with h that show False by simp
  qed
  from p h moved v show ?thesis by simp
qed

theorem prevStepClick_decrements_unless_first_witness:
  "currentSignupStep (handle PrevStepClick
      \<lparr>required_values = [[], []], reg_email = [], reg_username = [],
       reg_password = [], reg_confirm_password = []\<rparr>
      ((initial 2)\<lparr>currentSignupStep := 1\<rparr>)) = 0 \<and>
   handle PrevStepClick
      \<lparr>required_values = [[], []], reg_email = [], reg_username = [],
       reg_password = [], reg_confirm_password = []\<rparr>
      (initial 2) = initial 2 \<and>
   prevStepClick_value ((initial 2)\<lparr>currentSignupStep := 1\<rparr>) = Inr Undefined"
  using prevStepClick_decrements_unless_first
          [OF wizard_inv_second_step,
           of "\<lparr>required_values = [[], []], reg_email = [], reg_username = [],
                reg_password = [], reg_confirm_password = []\<rparr>"]
        prevStepClick_decrements_unless_first
          [OF wizard_inv_initial [of 2],
           of "\<lparr>required_values = [[], []], reg_email = [], reg_username = [],
                reg_password = [], reg_confirm_password = []\<rparr>"]
  by (simp add: initial_def)

text \<open>
  C6 as the claim words it fails on the result. On a page with two steps and the
  counter at 1, where \<open>currentSignupStep - 1 \<ge> 0\<close>, the handler moves the counter to
  0 and evaluates to \<^verbatim>\<open>undefined\<close>, not to \<^verbatim>\<open>true\<close>; from the start, with
  the counter at 0, it changes nothing and evaluates to \<^verbatim>\<open>undefined\<close>, not to
  \<^verbatim>\<open>false\<close>.
\<close>

theorem prevStepClick_returns_no_boolean_counterexample:
  "currentSignupStep ((initial 2)\<lparr>currentSignupStep := 1\<rparr>) - 1 \<ge> 0 \<and>
   prevStepClick ((initial 2)\<lparr>currentSignupStep := 1\<rparr>) = Inr (initial 2) \<and>
   prevStepClick_value ((initial 2)\<lparr>currentSignupStep := 1\<rparr>) = Inr Undefined \<and>
   prevStepClick_value ((initial 2)\<lparr>currentSignupStep := 1\<rparr>) \<noteq> Inr (Boolean True) \<and>
   currentSignupStep (initial 2) = 0 \<and>
   prevStepClick (initial 2) = Inr (initial 2) \<and>
   prevStepClick_value (initial 2) = Inr Undefined \<and>
   prevStepClick_value (initial 2) \<noteq> Inr (Boolean False)"
  by (simp add: prevStepClick_def prevStepClick_value_def navigateSignupStep_value_def
        navigateSignupStep_def has_step_def initial_def)

subsection \<open>Bounds of the counter\<close>

text \<open>
  C7. On a page with at least one step the counter starts inside the step list; each
  of the three handlers, run on any field values from any state whose counter is
  inside the list, leaves it inside the list; so after any sequence of events from
  the start \<open>0 \<le> currentSignupStep < signupSteps.length\<close> holds, the length being
  the one the page was loaded with.
\<close>

theorem wizard_bounds_invariant:
  "(0 < n \<longrightarrow> wizard_inv (initial n)) \<and>
   (wizard_inv g \<longrightarrow>
      wizard_inv (after (nextStepClick f g)) \<and>
      wizard_inv (handle PrevStepClick f g) \<and>
      wizard_inv (after (submit f g)) \<and>
      wizard_inv (handle ev f g)) \<and>
   (0 < n \<longrightarrow>
      0 \<le> currentSignupStep (run evs (initial n)) \<and>
      currentSignupStep (run evs (initial n)) < int n \<and>
      signupSteps_length (run evs (initial n)) = n)"
proof (intro conjI impI)
  assume "0 < n"
  then show "wizard_inv (initial n)" by (rule wizard_inv_initial)
next
  assume "wizard_inv g"
  then show "wizard_inv (after (nextStepClick f g))" by (simp add: nextStepClick_inv)
next
  assume "wizard_inv g"
  then show "wizard_inv (handle PrevStepClick f g)" by (simp add: handle_inv)
next
  assume "wizard_inv g"
  then show "wizard_inv (after (submit f g))" by (simp add: submit_inv)
next
  assume "wizard_inv g"
  then show "wizard_inv (handle ev f g)" by (simp add: handle_inv)
next
  assume "0 < n"
  then have "wizard_inv (initial n)" by (rule wizard_inv_initial)
  then have r: "wizard_inv (run evs (initial n)) \<and>
      signupSteps_length (run evs (initial n)) = signupSteps_length (initial n)"
    by (rule run_inv)
  have l: "signupSteps_length (initial n) = n" by (simp add: initial_def)
  from r show "0 \<le> currentSignupStep (run evs (initial n))"
    by (simp add: wizard_inv_def)
  from r l show "currentSignupStep (run evs (initial n)) < int n"
    by (simp add: wizard_inv_def)
  from r l show "signupSteps_length (run evs (initial n)) = n" by simp
qed

theorem wizard_bounds_invariant_witness:
  "wizard_inv (initial 2) \<and>
   wizard_inv (handle Submit
      \<lparr>required_values = [''abc'', ''abc''], reg_email = ''new@x.com'',
       reg_username = ''new'', reg_password = ''abc'', reg_confirm_password = ''abc''\<rparr>
      ((initial 2)\<lparr>currentSignupStep := 1\<rparr>)) \<and>
   0 \<le> currentSignupStep
      (run [(NextStepClick,
              \<lparr>required_values = [''new@x.com'', ''new''], reg_email = ''new@x.com'',
               reg_username = ''new'', reg_password = [], reg_confirm_password = []\<rparr>),
            (PrevStepClick,
              \<lparr>required_values = [''new@x.com'', ''new''], reg_email = ''new@x.com'',
               reg_username = ''new'', reg_password = [], reg_confirm_password = []\<rparr>),
            (PrevStepClick,
              \<lparr>required_values = [''new@x.com'', ''new''], reg_email = ''new@x.com'',
               reg_username = ''new'', reg_password = [], reg_confirm_password = []\<rparr>)]
         (initial 2)) \<and>
   currentSignupStep
      (run [(NextStepClick,
              \<lparr>required_values = [''new@x.com'', ''new''], reg_email = ''new@x.com'',
               reg_username = ''new'', reg_password = [], reg_confirm_password = []\<rparr>),
            (PrevStepClick,
              \<lparr>required_values = [''new@x.com'', ''new''], reg_email = ''new@x.com'',
               reg_username = ''new'', reg_password = [], reg_confirm_password = []\<rparr>),
            (PrevStepClick,
              \<lparr>required_values = [''new@x.com'', ''new''], reg_email = ''new@x.com'',
               reg_username = ''new'', reg_password = [], reg_confirm_password = []\<rparr>)]
         (initial 2)) < 2"
  using wizard_bounds_invariant
          [of 2 "(initial 2)\<lparr>currentSignupStep := 1\<rparr>"
              "\<lparr>required_values = [''abc'', ''abc''], reg_email = ''new@x.com'',
                reg_username = ''new'', reg_password = ''abc'',
                reg_confirm_password = ''abc''\<rparr>"
              Submit
              "[(NextStepClick,
                  \<lparr>required_values = [''new@x.com'', ''new''], reg_email = ''new@x.com'',
                   reg_username = ''new'', reg_password = [], reg_confirm_password = []\<rparr>),
                (PrevStepClick,
                  \<lparr>required_values = [''new@x.com'', ''new''], reg_email = ''new@x.com'',
                   reg_username = ''new'', reg_password = [], reg_confirm_password = []\<rparr>),
                (PrevStepClick,
                  \<lparr>required_values = [''new@x.com'', ''new''], reg_email = ''new@x.com'',
                   reg_username = ''new'', reg_password = [], reg_confirm_password = []\<rparr>)]"]
        wizard_inv_second_step
  by simp

subsection \<open>The submit handler\<close>

lemma submit_ignores_required_values:
  "submit (f\<lparr>required_values := rv\<rparr>) g = submit f g"
  by (simp add: submit_def Let_def)

text \<open>
  C8. When the password and its confirmation differ as strings, the submit handler
  ends at the return of line 166: no call of \<open>isEmailAlreadyRegistered\<close> was made, and
  every module-level value, the user list, its length and the counter among them, is
  as before. This holds whether or not the email is registered.
\<close>

theorem password_mismatch_changes_nothing:
  assumes "reg_password f \<noteq> reg_confirm_password f"
  shows "outcome (submit f g) = PasswordMismatch \<and>
         queried (submit f g) = [] \<and>
         after (submit f g) = g \<and>
         registeredUsers (after (submit f g)) = registeredUsers g \<and>
         length (registeredUsers (after (submit f g))) = length (registeredUsers g) \<and>
         currentSignupStep (after (submit f g)) = currentSignupStep g"
proof -
  from assms have "submit f g = \<lparr>outcome = PasswordMismatch, queried = [], after = g\<rparr>"
    by (rule submit_mismatch)
  then show ?thesis by simp
qed

theorem password_mismatch_changes_nothing_witness:
  "outcome (submit
      \<lparr>required_values = [''abc'', ''xyz''], reg_email = ''user@example.com'',
       reg_username = ''demo'', reg_password = ''abc'', reg_confirm_password = ''xyz''\<rparr>
      ((initial 2)\<lparr>currentSignupStep := 1\<rparr>)) = PasswordMismatch \<and>
   queried (submit
      \<lparr>required_values = [''abc'', ''xyz''], reg_email = ''user@example.com'',
       reg_username = ''demo'', reg_password = ''abc'', reg_confirm_password = ''xyz''\<rparr>
      ((initial 2)\<lparr>currentSignupStep := 1\<rparr>)) = [] \<and>
   length (registeredUsers (after (submit
      \<lparr>required_values = [''abc'', ''xyz''], reg_email = ''user@example.com'',
       reg_username = ''demo'', reg_password = ''abc'', reg_confirm_password = ''xyz''\<rparr>
      ((initial 2)\<lparr>currentSignupStep := 1\<rparr>)))) = 2 \<and>
   currentSignupStep (after (submit
      \<lparr>required_values = [''abc'', ''xyz''], reg_email = ''user@example.com'',
       reg_username = ''demo'', reg_password = ''abc'', reg_confirm_password = ''xyz''\<rparr>
      ((initial 2)\<lparr>currentSignupStep := 1\<rparr>))) = 1"
  using password_mismatch_changes_nothing
          [of "\<lparr>required_values = [''abc'', ''xyz''], reg_email = ''user@example.com'',
                reg_username = ''demo'', reg_password = ''abc'',
                reg_confirm_password = ''xyz''\<rparr>"
              "(initial 2)\<lparr>currentSignupStep := 1\<rparr>"]
  by (simp add: initial_def)

text \<open>
  C9. With the counter inside the step list, a submission whose password equals its
  confirmation and whose email \<open>isEmailAlreadyRegistered\<close> does not find runs to the
  end of the handler: the user list is the old list followed by one user made of the
  email, the username and the password as entered (the email is not lowercased), and
  the counter is 0.
\<close>

theorem submit_registers_new_user:
  assumes "wizard_inv g"
    and "reg_password f = reg_confirm_password f"
    and "\<not> isEmailAlreadyRegistered g (reg_email f)"
  shows "outcome (submit f g) =
           Success \<lparr>email = reg_email f, username = reg_username f,
                    password = reg_password f\<rparr> \<and>
         registeredUsers (after (submit f g)) =
           registeredUsers g @
             [\<lparr>email = reg_email f, username = reg_username f, password = reg_password f\<rparr>] \<and>
         length (registeredUsers (after (submit f g))) = length (registeredUsers g) + 1 \<and>
         email (last (registeredUsers (after (submit f g)))) = reg_email f \<and>
         currentSignupStep (after (submit f g)) = 0 \<and>
         signupSteps_length (after (submit f g)) = signupSteps_length g"
proof -
  from assms(2,3,1) have "submit f g =
     \<lparr>outcome = Success \<lparr>email = reg_email f, username = reg_username f,
                          password = reg_password f\<rparr>,
      queried = [reg_email f],
      after = g\<lparr>registeredUsers := registeredUsers g @
                   [\<lparr>email = reg_email f, username = reg_username f,
                     password = reg_password f\<rparr>],
                currentSignupStep := 0\<rparr>\<rparr>"
    by (rule submit_success)
  then show ?thesis by simp
qed

theorem submit_registers_new_user_witness:
  "outcome (submit
      \<lparr>required_values = [''abc'', ''abc''], reg_email = ''New@X.com'',
       reg_username = ''new'', reg_password = ''abc'', reg_confirm_password = ''abc''\<rparr>
      ((initial 2)\<lparr>currentSignupStep := 1\<rparr>))
     = Success \<lparr>email = ''New@X.com'', username = ''new'', password = ''abc''\<rparr> \<and>
   length (registeredUsers (after (submit
      \<lparr>required_values = [''abc'', ''abc''], reg_email = ''New@X.com'',
       reg_username = ''new'', reg_password = ''abc'', reg_confirm_password = ''abc''\<rparr>
      ((initial 2)\<lparr>currentSignupStep := 1\<rparr>)))) = 3 \<and>
   email (last (registeredUsers (after (submit
      \<lparr>required_values = [''abc'', ''abc''], reg_email = ''New@X.com'',
       reg_username = ''new'', reg_password = ''abc'', reg_confirm_password = ''abc''\<rparr>
      ((initial 2)\<lparr>currentSignupStep := 1\<rparr>))))) = ''New@X.com'' \<and>
   currentSignupStep (after (submit
      \<lparr>required_values = [''abc'', ''abc''], reg_email = ''New@X.com'',
       reg_username = ''new'', reg_password = ''abc'', reg_confirm_password = ''abc''\<rparr>
      ((initial 2)\<lparr>currentSignupStep := 1\<rparr>))) = 0"
proof -
  have fresh: "\<not> isEmailAlreadyRegistered ((initial 2)\<lparr>currentSignupStep := 1\<rparr>) ''New@X.com''"
    by (simp add: registered_currentSignupStep_update initial_lacks_New)
  have len: "length (registeredUsers ((initial 2)\<lparr>currentSignupStep := 1\<rparr>)) = 2"
    by (simp add: initial_def)
  show ?thesis
    using submit_registers_new_user
            [OF wizard_inv_second_step,
             of "\<lparr>required_values = [''abc'', ''abc''], reg_email = ''New@X.com'',
                  reg_username = ''new'', reg_password = ''abc'',
                  reg_confirm_password = ''abc''\<rparr>"]
          fresh len
    by simp
qed

text \<open>
  C10. The submit handler tests nothing but the equality of the two passwords and
  the duplicate check: its result does not depend on the values of the required
  inputs, and with an empty password, an empty confirmation and an email (empty or
  not) that \<open>isEmailAlreadyRegistered\<close> does not find, it appends the user made of
  the fields as they are; with the counter inside the step list it runs to the end.
\<close>

theorem submit_accepts_empty_fields:
  assumes "reg_password f = []" and "reg_confirm_password f = []"
    and "\<not> isEmailAlreadyRegistered g (reg_email f)"
  shows "registeredUsers (after (submit f g)) =
           registeredUsers g @
             [\<lparr>email = reg_email f, username = reg_username f, password = []\<rparr>] \<and>
         submit (f\<lparr>required_values := rv\<rparr>) g = submit f g \<and>
         (wizard_inv g \<longrightarrow>
            outcome (submit f g) =
              Success \<lparr>email = reg_email f, username = reg_username f, password = []\<rparr>)"
proof (intro conjI impI)
  from assms have m: "reg_password f = reg_confirm_password f" by simp
  from m assms(3) have "registeredUsers (after (submit f g)) =
      registeredUsers g @
        [\<lparr>email = reg_email f, username = reg_username f, password = reg_password f\<rparr>]"
    by (rule submit_registeredUsers_fresh)
  with assms(1) show "registeredUsers (after (submit f g)) =
      registeredUsers g @ [\<lparr>email = reg_email f, username = reg_username f, password = []\<rparr>]"
    by simp
  show "submit (f\<lparr>required_values := rv\<rparr>) g = submit f g"
    by (rule submit_ignores_required_values)
  assume "wizard_inv g"
  with m assms(3) have "submit f g =
     \<lparr>outcome = Success \<lparr>email = reg_email f, username = reg_username f,
                          password = reg_password f\<rparr>,
      queried = [reg_email f],
      after = g\<lparr>registeredUsers := registeredUsers g @
                   [\<lparr>email = reg_email f, username = reg_username f,
                     password = reg_password f\<rparr>],
                currentSignupStep := 0\<rparr>\<rparr>"
    by (rule submit_success)
  with assms(1) show "outcome (submit f g) =
      Success \<lparr>email = reg_email f, username = reg_username f, password = []\<rparr>"
    by simp
qed

theorem submit_accepts_empty_fields_witness:
  "registeredUsers (after (submit
      \<lparr>required_values = [[], []], reg_email = [], reg_username = [],
       reg_password = [], reg_confirm_password = []\<rparr> (initial 2)))
     = registeredUsers (initial 2) @ [\<lparr>email = [], username = [], password = []\<rparr>] \<and>
   outcome (submit
      \<lparr>required_values = [[], []], reg_email = [], reg_username = [],
       reg_password = [], reg_confirm_password = []\<rparr> (initial 2))
     = Success \<lparr>email = [], username = [], password = []\<rparr>"
  using submit_accepts_empty_fields
          [of "\<lparr>required_values = [[], []], reg_email = [], reg_username = [],
                reg_password = [], reg_confirm_password = []\<rparr>"
              "initial 2"]
        initial_lacks_empty [of 2] wizard_inv_initial [of 2]
  by simp

end
